theory Spec2Isabelle
  imports Main
begin

section \<open>Data model (internal/models)\<close>

text \<open>
  Go's \<^verbatim>\<open>int\<close>, \<^verbatim>\<open>int64\<close> and \<^verbatim>\<open>time.Duration\<close> are 64-bit two's complement
  integers. They are modelled as \<^typ>\<open>int\<close>, and an arithmetic operation of the source
  whose mathematical result can leave the signed 64-bit range is followed by \<open>wrap64\<close>,
  which reduces it to that range the way the hardware does.
\<close>

definition wrap64 :: "int \<Rightarrow> int" where
  "wrap64 k = (k + 2 ^ 63) mod 2 ^ 64 - 2 ^ 63"

definition wrap32 :: "int \<Rightarrow> int" where
  "wrap32 k = (k + 2 ^ 31) mod 2 ^ 32 - 2 ^ 31"

text \<open>
  \<^verbatim>\<open>time.Time\<close> of the Go standard library, reduced to what this program observes: the
  whole seconds since January 1, year 1, 00:00:00 UTC (the library's internal epoch) and
  the nanoseconds within the second.
\<close>

record Time =
  t_sec :: int
  t_nsec :: int

definition unixToInternal :: int where
  "unixToInternal = (1969 * 365 + 1969 div 4 - 1969 div 100 + 1969 div 400) * 86400"

text \<open>Go's \<^verbatim>\<open>/\<close> and \<^verbatim>\<open>%\<close> on integers truncate towards zero (the divisor is not zero).\<close>

definition go_div :: "int \<Rightarrow> int \<Rightarrow> int" where
  "go_div a b = sgn a * sgn b * (\<bar>a\<bar> div \<bar>b\<bar>)"

definition go_rem :: "int \<Rightarrow> int \<Rightarrow> int" where
  "go_rem a b = a - b * go_div a b"

definition unixTime :: "int \<Rightarrow> int \<Rightarrow> Time" where
  "unixTime sec nsec = \<lparr>t_sec = wrap64 (sec + unixToInternal), t_nsec = nsec\<rparr>"

text \<open>
  \<^verbatim>\<open>time.Unix(sec, nsec)\<close>: the time \<open>sec\<close> seconds and \<open>nsec\<close> nanoseconds after
  January 1, 1970 UTC; a nanosecond count outside \<open>[0, 1e9)\<close> is carried into the seconds.
\<close>

definition time_Unix :: "int \<Rightarrow> int \<Rightarrow> Time" where
  "time_Unix sec nsec =
     (if nsec < 0 \<or> 1000000000 \<le> nsec then
        (let n = go_div nsec 1000000000;
             sec1 = wrap64 (sec + n);
             nsec1 = wrap64 (nsec - n * 1000000000)
         in if nsec1 < 0 then unixTime (wrap64 (sec1 - 1)) (nsec1 + 1000000000)
            else unixTime sec1 nsec1)
      else unixTime sec nsec)"

text \<open>\<^verbatim>\<open>Time.IsZero\<close>: whether the time is the zero time, January 1, year 1, 00:00:00 UTC.\<close>

definition IsZero :: "Time \<Rightarrow> bool" where
  "IsZero t \<longleftrightarrow> t_sec t = 0 \<and> t_nsec t = 0"

text \<open>
  \<^verbatim>\<open>Time.Add\<close>, for the wall-clock readings the sample data shifts by a few hours (the
  library's saturation at the ends of the 64-bit range is left out).
\<close>

definition time_Add :: "Time \<Rightarrow> int \<Rightarrow> Time" where
  "time_Add t d =
     (let dsec = go_div d 1000000000;
          nsec = t_nsec t + go_rem d 1000000000
      in if 1000000000 \<le> nsec then \<lparr>t_sec = t_sec t + (dsec + 1), t_nsec = nsec - 1000000000\<rparr>
         else if nsec < 0 then \<lparr>t_sec = t_sec t + (dsec - 1), t_nsec = nsec + 1000000000\<rparr>
         else \<lparr>t_sec = t_sec t + dsec, t_nsec = nsec\<rparr>)"

definition Millisecond :: int where "Millisecond = 1000000"
definition Hour :: int where "Hour = 3600000000000"

record User =
  uID :: string
  uUsername :: string
  uFollowerIDs :: "string list"
  uFollowingIDs :: "string list"

record Post =
  pID :: string
  pAuthorID :: string
  pContent :: string
  pCreatedAt :: Time

datatype NotificationStatus =
  StatusUnknown | StatusQueued | StatusDelivered | StatusFailed | StatusRetrying

record Notification =
  nID :: string
  nUserID :: string
  nPostID :: string
  nAuthorID :: string
  nContent :: string
  nCreatedAt :: Time
  nRead :: bool
  nStatus :: NotificationStatus
  nAttempts :: int

text \<open>
  The program passes notifications around as \<^verbatim>\<open>*models.Notification\<close>: the store's lists,
  the queue's channel and the retry sleepers all hold pointers to the same objects, and a
  worker mutates the object it holds. A pointer is an address \<open>ref\<close>, and the objects live
  in a heap. Every pointer of the program comes from \<^verbatim>\<open>&Notification{...}\<close>, so no
  pointer is nil.
\<close>

type_synonym ref = nat
type_synonym heap = "ref \<Rightarrow> Notification"

text \<open>\<^verbatim>\<open>NewNotification\<close>; the fresh UUID and the clock reading are inputs.\<close>

definition NewNotification :: "string \<Rightarrow> Post \<Rightarrow> string \<Rightarrow> Time \<Rightarrow> Notification" where
  "NewNotification userID post uuid now =
     \<lparr>nID = uuid, nUserID = userID, nPostID = pID post, nAuthorID = pAuthorID post,
      nContent = ''New post from a user you follow'', nCreatedAt = now, nRead = False,
      nStatus = StatusQueued, nAttempts = 0\<rparr>"

section \<open>The in-memory store (package store)\<close>

datatype error = ErrUserNotFound | ErrPostNotFound | ErrNotificationNotFound

text \<open>
  Users and posts are never mutated after they are stored, so the maps hold their values;
  the notification lists hold pointers.
\<close>

record MemoryStore =
  users :: "string \<rightharpoonup> User"
  posts :: "string \<rightharpoonup> Post"
  notifications :: "string \<rightharpoonup> ref list"

definition GetUser :: "MemoryStore \<Rightarrow> string \<Rightarrow> error + User" where
  "GetUser s ident = (case users s ident of None \<Rightarrow> Inl ErrUserNotFound | Some user \<Rightarrow> Inr user)"

text \<open>The loop of \<^verbatim>\<open>GetFollowers\<close> over \<^verbatim>\<open>user.FollowerIDs\<close>, appending to \<^verbatim>\<open>followers\<close>.\<close>

fun GetFollowers_loop :: "MemoryStore \<Rightarrow> string list \<Rightarrow> User list \<Rightarrow> User list" where
  "GetFollowers_loop s [] followers = followers"
| "GetFollowers_loop s (ident # ids) followers =
     (case users s ident of
        Some follower \<Rightarrow> GetFollowers_loop s ids (followers @ [follower])
      | None \<Rightarrow> GetFollowers_loop s ids followers)"

definition GetFollowers :: "MemoryStore \<Rightarrow> string \<Rightarrow> error + User list" where
  "GetFollowers s userID =
     (case users s userID of
        None \<Rightarrow> Inl ErrUserNotFound
      | Some user \<Rightarrow> Inr (GetFollowers_loop s (uFollowerIDs user) []))"

definition SavePost :: "Post \<Rightarrow> MemoryStore \<Rightarrow> error option \<times> MemoryStore" where
  "SavePost post s = (None, s\<lparr>posts := (posts s)(pID post \<mapsto> post)\<rparr>)"

definition GetPost :: "MemoryStore \<Rightarrow> string \<Rightarrow> error + Post" where
  "GetPost s ident = (case posts s ident of None \<Rightarrow> Inl ErrPostNotFound | Some post \<Rightarrow> Inr post)"

text \<open>
  \<^verbatim>\<open>SaveNotification\<close>: \<^verbatim>\<open>append(s.notifications[UserID], notification)\<close>; a missing key
  reads as the nil slice.
\<close>

definition SaveNotification :: "heap \<Rightarrow> ref \<Rightarrow> MemoryStore \<Rightarrow> error option \<times> MemoryStore" where
  "SaveNotification h p s =
     (None, s\<lparr>notifications := (notifications s)(nUserID (h p) \<mapsto>
        (case notifications s (nUserID (h p)) of None \<Rightarrow> [] | Some ns \<Rightarrow> ns) @ [p])\<rparr>)"

text \<open>
  The loop of \<^verbatim>\<open>UpdateNotification\<close>: the index of the first entry whose ID equals the
  ID of the given notification, if there is one. The second list is the part of the slice
  still to visit, \<open>i\<close> the index of its head.
\<close>

fun UpdateNotification_loop :: "heap \<Rightarrow> ref \<Rightarrow> ref list \<Rightarrow> nat \<Rightarrow> nat option" where
  "UpdateNotification_loop h p [] i = None"
| "UpdateNotification_loop h p (n # rest) i =
     (if nID (h n) = nID (h p) then Some i else UpdateNotification_loop h p rest (Suc i))"

definition UpdateNotification :: "heap \<Rightarrow> ref \<Rightarrow> MemoryStore \<Rightarrow> error option \<times> MemoryStore" where
  "UpdateNotification h p s =
     (case notifications s (nUserID (h p)) of
        None \<Rightarrow> (Some ErrUserNotFound, s)
      | Some userNotifications \<Rightarrow>
          (case UpdateNotification_loop h p userNotifications 0 of
             Some i \<Rightarrow>
               (None, s\<lparr>notifications :=
                  (notifications s)(nUserID (h p) \<mapsto> userNotifications[i := p])\<rparr>)
           | None \<Rightarrow> (Some ErrNotificationNotFound, s)))"





section \<open>The Read API (package resolver)\<close>



section \<open>Sample data and construction of the store\<close>

definition sampleUsers :: "User list" where
  "sampleUsers =
     [\<lparr>uID = ''user1'', uUsername = ''alice'',
        uFollowerIDs = [''user2'', ''user3'', ''user4'', ''user5'', ''user6'', ''user7''],
        uFollowingIDs = []\<rparr>,
      \<lparr>uID = ''user2'', uUsername = ''bob'',
        uFollowerIDs = [''user1'', ''user3'', ''user5''], uFollowingIDs = []\<rparr>,
      \<lparr>uID = ''user3'', uUsername = ''charlie'',
        uFollowerIDs = [''user1'', ''user2'', ''user4''], uFollowingIDs = []\<rparr>,
      \<lparr>uID = ''user4'', uUsername = ''dave'',
        uFollowerIDs = [''user2'', ''user5'', ''user7''], uFollowingIDs = []\<rparr>,
      \<lparr>uID = ''user5'', uUsername = ''eve'', uFollowerIDs = [], uFollowingIDs = []\<rparr>,
      \<lparr>uID = ''user6'', uUsername = ''frank'', uFollowerIDs = [], uFollowingIDs = []\<rparr>,
      \<lparr>uID = ''user7'', uUsername = ''grace'', uFollowerIDs = [], uFollowingIDs = []\<rparr>]"

text \<open>The three sample posts; \<open>clock k\<close> is the reading of the \<open>k\<close>-th call of \<^verbatim>\<open>time.Now()\<close>.\<close>

definition samplePosts :: "(nat \<Rightarrow> Time) \<Rightarrow> Post list" where
  "samplePosts clock =
     [\<lparr>pID = ''post1'', pAuthorID = ''user1'', pContent = ''Hello world from Alice!'',
        pCreatedAt = time_Add (clock 0) (- 24 * Hour)\<rparr>,
      \<lparr>pID = ''post2'', pAuthorID = ''user2'', pContent = ''Bob's first post'',
        pCreatedAt = time_Add (clock 1) (- 12 * Hour)\<rparr>,
      \<lparr>pID = ''post3'', pAuthorID = ''user3'',
        pContent = ''Charlie's thoughts on distributed systems'',
        pCreatedAt = time_Add (clock 2) (- 6 * Hour)\<rparr>]"

definition loadSampleData :: "(nat \<Rightarrow> Time) \<Rightarrow> MemoryStore \<Rightarrow> MemoryStore" where
  "loadSampleData clock s =
     (let s1 = fold (\<lambda>user st. st\<lparr>users := (users st)(uID user \<mapsto> user)\<rparr>) sampleUsers s;
          s2 = fold (\<lambda>post st. st\<lparr>posts := (posts st)(pID post \<mapsto> post)\<rparr>) (samplePosts clock) s1
      in fold (\<lambda>user st. st\<lparr>notifications := (notifications st)(uID user \<mapsto> [])\<rparr>) sampleUsers s2)"

definition NewMemoryStore :: "bool \<Rightarrow> (nat \<Rightarrow> Time) \<Rightarrow> MemoryStore" where
  "NewMemoryStore loadSample clock =
     (let store = \<lparr>users = Map.empty, posts = Map.empty, notifications = Map.empty\<rparr>
      in if loadSample then loadSampleData clock store else store)"

section \<open>The delivery queue (package queue)\<close>

definition maxRetries :: int where "maxRetries = 3"
definition initialBackoff :: int where "initialBackoff = 100 * Millisecond"
definition maxWorkers :: int where "maxWorkers = 10"

record Metrics =
  TotalSent :: int
  FailedAttempts :: int
  TotalRetries :: int
  deliveryTimes :: "int list"

text \<open>
  The channel \<^verbatim>\<open>queue\<close> is its buffer, oldest element first, together with the capacity
  it was made with. The store is shared with the other components and is passed beside
  the queue; the cancellation context and the wait group carry no data.
\<close>

record NotificationQueue =
  queue :: "ref list"
  queue_cap :: nat
  workerCount :: int
  metrics :: Metrics

definition NewNotificationQueue :: "int \<Rightarrow> NotificationQueue" where
  "NewNotificationQueue wc =
     \<lparr>queue = [], queue_cap = 1000,
      workerCount = (if wc \<le> 0 then maxWorkers else wc),
      metrics = \<lparr>TotalSent = 0, FailedAttempts = 0, TotalRetries = 0, deliveryTimes = []\<rparr>\<rparr>"

text \<open>
  A send in a \<^verbatim>\<open>select\<close> with a \<^verbatim>\<open>default\<close> case: the element enters the buffer when
  there is room, and otherwise the default case runs (the drop is only logged).
\<close>

definition QueueNotification :: "ref \<Rightarrow> NotificationQueue \<Rightarrow> NotificationQueue" where
  "QueueNotification p q =
     (if length (queue q) < queue_cap q then q\<lparr>queue := queue q @ [p]\<rparr> else q)"

text \<open>\<^verbatim>\<open>queued\<close> counts elements of a slice, so it stays within the range of \<^verbatim>\<open>int\<close>.\<close>

fun QueueNotifications_loop ::
  "ref list \<Rightarrow> int \<Rightarrow> NotificationQueue \<Rightarrow> int \<times> NotificationQueue" where
  "QueueNotifications_loop [] queued q = (queued, q)"
| "QueueNotifications_loop (p # rest) queued q =
     (if length (queue q) < queue_cap q
      then QueueNotifications_loop rest (queued + 1) (q\<lparr>queue := queue q @ [p]\<rparr>)
      else QueueNotifications_loop rest queued q)"

definition QueueNotifications :: "ref list \<Rightarrow> NotificationQueue \<Rightarrow> int \<times> NotificationQueue" where
  "QueueNotifications ps q = QueueNotifications_loop ps 0 q"

text \<open>
  The state the components share: the heap of notification objects with its allocation
  pointer, the store, the queue, the notifications held by workers in a processing pass,
  and the retry goroutines asleep, each with its notification and its delay.
\<close>

record System =
  mem :: heap
  nextRef :: nat
  mstore :: MemoryStore
  nq :: NotificationQueue
  inflight :: "ref list"
  sleepers :: "(ref \<times> int) list"

text \<open>
  \<^verbatim>\<open>time.Duration(math.Pow(2, float64(k)))\<close>: a power of two with an integer exponent is
  exact in binary floating point, so for \<open>0 \<le> k \<le> 62\<close> the conversion yields \<open>2 ^ k\<close>;
  for \<open>k < 0\<close> the power is below one and truncates to zero. The retry branch reaches
  it with \<open>k \<le> maxRetries - 1\<close> only.
\<close>

definition pow2_Duration :: "int \<Rightarrow> int" where
  "pow2_Duration k = (if k < 0 then 0 else 2 ^ nat k)"

definition backoff_of :: "int \<Rightarrow> int" where
  "backoff_of attempts = wrap64 (pow2_Duration (wrap64 (attempts - 1)) * initialBackoff)"

definition set_Attempts :: "ref \<Rightarrow> int \<Rightarrow> heap \<Rightarrow> heap" where
  "set_Attempts p a h = h(p := (h p)\<lparr>nAttempts := a\<rparr>)"

definition set_Status :: "ref \<Rightarrow> NotificationStatus \<Rightarrow> heap \<Rightarrow> heap" where
  "set_Status p st h = h(p := (h p)\<lparr>nStatus := st\<rparr>)"

text \<open>
  \<^verbatim>\<open>processNotification\<close>. \<open>fail\<close> is the outcome of \<^verbatim>\<open>rand.Float64() < failureRate\<close>
  and \<open>elapsed\<close> the value of \<^verbatim>\<open>time.Since(startTime)\<close>. An error of
  \<^verbatim>\<open>UpdateNotification\<close> is logged and dropped. The retry goroutine is recorded among
  the sleepers.
\<close>

definition processNotification :: "bool \<Rightarrow> int \<Rightarrow> ref \<Rightarrow> System \<Rightarrow> System" where
  "processNotification fail elapsed p s =
     (if fail then
        (let m1 = (metrics (nq s))\<lparr>FailedAttempts := wrap64 (FailedAttempts (metrics (nq s)) + 1)\<rparr>;
             h1 = set_Attempts p (wrap64 (nAttempts (mem s p) + 1)) (mem s)
         in if nAttempts (h1 p) \<le> maxRetries then
              (let backoff = backoff_of (nAttempts (h1 p));
                   h2 = set_Status p StatusRetrying h1;
                   (err, st) = UpdateNotification h2 p (mstore s);
                   m2 = m1\<lparr>TotalRetries := wrap64 (TotalRetries m1 + 1)\<rparr>
               in s\<lparr>mem := h2, mstore := st, nq := (nq s)\<lparr>metrics := m2\<rparr>,
                     sleepers := sleepers s @ [(p, backoff)]\<rparr>)
            else
              (let h2 = set_Status p StatusFailed h1;
                   (err, st) = UpdateNotification h2 p (mstore s)
               in s\<lparr>mem := h2, mstore := st, nq := (nq s)\<lparr>metrics := m1\<rparr>\<rparr>))
      else
        (let h1 = set_Status p StatusDelivered (mem s);
             (err, st) = UpdateNotification h1 p (mstore s);
             m = (metrics (nq s))\<lparr>TotalSent := wrap64 (TotalSent (metrics (nq s)) + 1),
                                   deliveryTimes := deliveryTimes (metrics (nq s)) @ [elapsed]\<rparr>
         in s\<lparr>mem := h1, mstore := st, nq := (nq s)\<lparr>metrics := m\<rparr>\<rparr>))"

text \<open>
  \<^verbatim>\<open>GetMetrics\<close>. The result is a \<^verbatim>\<open>map[string]interface{}\<close>; a value carries its dynamic
  type. \<^verbatim>\<open>Duration.String\<close> of the standard library is the parameter \<open>String\<close>.
\<close>

datatype iface = Int64 int | GoInt int | GoString string

definition sum_durations :: "int list \<Rightarrow> int" where
  "sum_durations ts = fold (\<lambda>t sum. wrap64 (sum + t)) ts 0"

definition avgDeliveryTime :: "int list \<Rightarrow> int" where
  "avgDeliveryTime ts =
     (if 0 < length ts then go_div (sum_durations ts) (int (length ts)) else 0)"

definition GetMetrics :: "(int \<Rightarrow> string) \<Rightarrow> NotificationQueue \<Rightarrow> (string \<rightharpoonup> iface)" where
  "GetMetrics String q =
     [''total_sent'' \<mapsto> Int64 (TotalSent (metrics q)),
      ''failed_attempts'' \<mapsto> Int64 (FailedAttempts (metrics q)),
      ''total_retries'' \<mapsto> Int64 (TotalRetries (metrics q)),
      ''avg_delivery_time'' \<mapsto> GoString (String (avgDeliveryTime (deliveryTimes (metrics q)))),
      ''queue_size'' \<mapsto> GoInt (int (length (queue q))),
      ''worker_count'' \<mapsto> GoInt (workerCount q)]"

section \<open>The gRPC service (package service)\<close>

record PostRequest =
  req_id :: string
  req_author_id :: string
  req_content :: string
  req_created_at :: int

record NotificationResponse =
  post_id :: string
  notifications_queued :: int
  success :: bool

datatype rpc_error = Internal_save_post error | Internal_get_followers error

text \<open>
  The loop of \<^verbatim>\<open>PublishPost\<close> over the followers. The \<open>j\<close>-th iteration allocates a
  notification with the UUID and the clock reading \<open>fresh j\<close>, saves it and, unless the
  save failed, appends it to \<^verbatim>\<open>notifications\<close>.
\<close>

fun PublishPost_loop ::
  "User list \<Rightarrow> Post \<Rightarrow> (nat \<Rightarrow> string \<times> Time) \<Rightarrow> nat \<Rightarrow> System \<times> ref list \<Rightarrow> System \<times> ref list" where
  "PublishPost_loop [] post fresh j (s, acc) = (s, acc)"
| "PublishPost_loop (follower # rest) post fresh j (s, acc) =
     (let p = nextRef s;
          h = (mem s)(p := NewNotification (uID follower) post (fst (fresh j)) (snd (fresh j)));
          (err, st) = SaveNotification h p (mstore s);
          s1 = s\<lparr>mem := h, nextRef := Suc p, mstore := st\<rparr>
      in case err of
           Some e \<Rightarrow> PublishPost_loop rest post fresh (Suc j) (s1, acc)
         | None \<Rightarrow> PublishPost_loop rest post fresh (Suc j) (s1, acc @ [p]))"

text \<open>
  \<^verbatim>\<open>PublishPost\<close>. \<open>uuid\<close> is what \<^verbatim>\<open>uuid.New().String()\<close> returns for the post and
  \<open>now\<close> what \<^verbatim>\<open>time.Now()\<close> returns for it, should the code ask.
\<close>

definition PublishPost ::
  "PostRequest \<Rightarrow> string \<Rightarrow> Time \<Rightarrow> (nat \<Rightarrow> string \<times> Time) \<Rightarrow> System
     \<Rightarrow> (rpc_error + NotificationResponse) \<times> System" where
  "PublishPost req uuid now fresh s =
     (let post0 = \<lparr>pID = req_id req, pAuthorID = req_author_id req, pContent = req_content req,
                   pCreatedAt = time_Unix (req_created_at req) 0\<rparr>;
          post1 = (if pID post0 = '''' then post0\<lparr>pID := uuid\<rparr> else post0);
          post = (if IsZero (pCreatedAt post1) then post1\<lparr>pCreatedAt := now\<rparr> else post1);
          (err, st) = SavePost post (mstore s);
          s1 = s\<lparr>mstore := st\<rparr>
      in case err of
           Some e \<Rightarrow> (Inl (Internal_save_post e), s1)
         | None \<Rightarrow>
             (case GetFollowers (mstore s1) (pAuthorID post) of
                Inl e \<Rightarrow> (Inl (Internal_get_followers e), s1)
              | Inr followers \<Rightarrow>
                  (let (s2, ns) = PublishPost_loop followers post fresh 0 (s1, []);
                       (queuedCount, q) = QueueNotifications ns (nq s2)
                   in (Inr \<lparr>post_id = pID post, notifications_queued = wrap32 queuedCount,
                            success = True\<rparr>,
                       s2\<lparr>nq := q\<rparr>))))"

section \<open>The running system\<close>

text \<open>
  The process after \<^verbatim>\<open>main\<close> has built the store and the queue and started the workers.
  The heap holds no notification yet; an unallocated cell reads as the zero value.
\<close>

definition zeroNotification :: Notification where
  "zeroNotification =
     \<lparr>nID = '''', nUserID = '''', nPostID = '''', nAuthorID = '''', nContent = '''',
      nCreatedAt = \<lparr>t_sec = 0, t_nsec = 0\<rparr>, nRead = False, nStatus = StatusUnknown,
      nAttempts = 0\<rparr>"

definition init_system :: "bool \<Rightarrow> (nat \<Rightarrow> Time) \<Rightarrow> int \<Rightarrow> System" where
  "init_system loadSample clock wc =
     \<lparr>mem = (\<lambda>_. zeroNotification), nextRef = 0, mstore = NewMemoryStore loadSample clock,
      nq = NewNotificationQueue wc, inflight = [], sleepers = []\<rparr>"

text \<open>
  What can happen next, one event at a time:
  \<^item> \<open>Publish\<close>: a \<^verbatim>\<open>PublishPost\<close> call runs;
  \<^item> \<open>Take\<close>: an idle worker receives the oldest notification of the channel;
  \<^item> \<open>Pass i fail elapsed\<close>: the worker holding the \<open>i\<close>-th notification in flight runs
    \<^verbatim>\<open>processNotification\<close> on it, with the given coin and elapsed time;
  \<^item> \<open>Fire i\<close>: the \<open>i\<close>-th sleeping retry goroutine wakes up and calls
    \<^verbatim>\<open>QueueNotification\<close>.
  An event that cannot happen in a state yields \<open>None\<close>.
\<close>

datatype event =
  Publish PostRequest string Time "nat \<Rightarrow> string \<times> Time"
| Take
| Pass nat bool int
| Fire nat

definition remove_nth :: "nat \<Rightarrow> 'a list \<Rightarrow> 'a list" where
  "remove_nth i xs = take i xs @ drop (Suc i) xs"

fun step :: "event \<Rightarrow> System \<Rightarrow> System option" where
  "step (Publish req uuid now fresh) s = Some (snd (PublishPost req uuid now fresh s))"
| "step Take s =
     (case queue (nq s) of
        [] \<Rightarrow> None
      | p # rest \<Rightarrow>
          if int (length (inflight s)) < workerCount (nq s)
          then Some (s\<lparr>nq := (nq s)\<lparr>queue := rest\<rparr>, inflight := inflight s @ [p]\<rparr>)
          else None)"
| "step (Pass i fail elapsed) s =
     (if i < length (inflight s)
      then Some (processNotification fail elapsed (inflight s ! i)
                   (s\<lparr>inflight := remove_nth i (inflight s)\<rparr>))
      else None)"
| "step (Fire i) s =
     (if i < length (sleepers s)
      then Some (s\<lparr>sleepers := remove_nth i (sleepers s),
                   nq := QueueNotification (fst (sleepers s ! i)) (nq s)\<rparr>)
      else None)"

fun run :: "event list \<Rightarrow> System \<Rightarrow> System option" where
  "run [] s = Some s"
| "run (e # es) s = (case step e s of None \<Rightarrow> None | Some s1 \<Rightarrow> run es s1)"

section \<open>The invariant of the pipeline\<close>

text \<open>
  The notifications still on their way: in the channel, held by a worker, or waiting in a
  retry goroutine.
\<close>

definition pending :: "System \<Rightarrow> ref list" where
  "pending s = queue (nq s) @ inflight s @ map fst (sleepers s)"

text \<open>
  No notification is on its way twice; a notification on its way is allocated, is neither
  delivered nor failed, and has used at most \<open>maxRetries\<close> attempts; every allocated
  notification has between 0 and \<open>maxRetries + 1\<close> attempts.
\<close>

definition pipeline_inv :: "System \<Rightarrow> bool" where
  "pipeline_inv s \<longleftrightarrow>
     distinct (pending s) \<and>
     (\<forall>r \<in> set (pending s). r < nextRef s \<and>
        (nStatus (mem s r) = StatusQueued \<or> nStatus (mem s r) = StatusRetrying) \<and>
        nAttempts (mem s r) \<le> maxRetries) \<and>
     (\<forall>r < nextRef s. 0 \<le> nAttempts (mem s r) \<and> nAttempts (mem s r) \<le> maxRetries + 1)"

text \<open>
  From \<open>s\<close> to \<open>s'\<close> no notification is lost, no attempts counter decreases and no
  delivered or failed notification changes its status.
\<close>

definition preserved :: "System \<Rightarrow> System \<Rightarrow> bool" where
  "preserved s s' \<longleftrightarrow>
     nextRef s \<le> nextRef s' \<and>
     (\<forall>r < nextRef s. nAttempts (mem s r) \<le> nAttempts (mem s' r) \<and>
        (nStatus (mem s r) = StatusDelivered \<longrightarrow> nStatus (mem s' r) = StatusDelivered) \<and>
        (nStatus (mem s r) = StatusFailed \<longrightarrow> nStatus (mem s' r) = StatusFailed))"


section \<open>Example states\<close>

text \<open>
  A small store and heap on which the theorems below are instantiated: user \<open>a\<close> has a
  follower list with a repeated ID and an ID that does not resolve; user \<open>user2\<close> has
  three notifications, of which the last two share an ID.
\<close>

definition userA :: User where
  "userA = \<lparr>uID = ''a'', uUsername = ''ann'', uFollowerIDs = [''b'', ''ghost'', ''b''], uFollowingIDs = []\<rparr>"

definition userB :: User where
  "userB = \<lparr>uID = ''b'', uUsername = ''ben'', uFollowerIDs = [], uFollowingIDs = [''a'']\<rparr>"

definition store2 :: MemoryStore where
  "store2 = \<lparr>users = [''a'' \<mapsto> userA, ''b'' \<mapsto> userB], posts = Map.empty,
             notifications = [''user2'' \<mapsto> [0, 1, 2], ''user3'' \<mapsto> [3]]\<rparr>"

definition heap2 :: heap where
  "heap2 = (\<lambda>r. zeroNotification\<lparr>nID := (if r = 0 then ''a'' else if r = 1 then ''b'' else if r = 2 then ''b'' else ''c''),
      nUserID := (if r = 3 then ''user3'' else if r = 5 then ''user9'' else ''user2'')\<rparr>)"

text \<open>
  A queue of capacity two, and a system whose queue holds one notification and whose
  metrics record two deliveries of 10 ms and 10.000001 ms.
\<close>

definition queue2 :: NotificationQueue where
  "queue2 = (NewNotificationQueue 5)\<lparr>queue_cap := 2\<rparr>"

definition metrics2 :: Metrics where
  "metrics2 = \<lparr>TotalSent = 2, FailedAttempts = 1, TotalRetries = 1,
               deliveryTimes = [10000000, 10000001]\<rparr>"

definition sys2 :: System where
  "sys2 = \<lparr>mem = heap2, nextRef = 4, mstore = store2,
            nq = (NewNotificationQueue 0)\<lparr>queue := [3], metrics := metrics2\<rparr>,
            inflight = [], sleepers = []\<rparr>"

text \<open>
  A run of the system built by \<^verbatim>\<open>main\<close> with the sample data: \<open>user2\<close> publishes a post
  whose \<^verbatim>\<open>created_at\<close> is zero, which creates the notifications 0, 1 and 2 for the
  followers \<open>user1\<close>, \<open>user3\<close> and \<open>user5\<close>; notification 0 is delivered (\<open>run0\<close>);
  then notification 1 fails twice and notification 2 is delivered (\<open>run1\<close>).
\<close>

definition clock0 :: "nat \<Rightarrow> Time" where
  "clock0 k = \<lparr>t_sec = 63900000000 + int k, t_nsec = 0\<rparr>"

definition fresh0 :: "nat \<Rightarrow> string \<times> Time" where
  "fresh0 j = (''n'' @ replicate j CHR ''x'', clock0 (10 + j))"

definition req1 :: PostRequest where
  "req1 = \<lparr>req_id = ''p9'', req_author_id = ''user2'', req_content = ''hi'', req_created_at = 0\<rparr>"

definition sys0 :: System where
  "sys0 = init_system True clock0 5"

definition run0 :: "event list" where
  "run0 = [Publish req1 ''fresh-post-id'' (clock0 5) fresh0, Take, Pass 0 False 12000000]"

definition run1 :: "event list" where
  "run1 = [Take, Pass 0 True 20000000, Fire 0, Take, Take, Pass 1 True 15000000,
           Pass 0 False 11000000]"

definition state0 :: System where
  "state0 = the (run run0 sys0)"

definition state1 :: System where
  "state1 = the (run run1 state0)"

section \<open>Store: followers\<close>

lemma GetFollowers_loop_eq:
  "GetFollowers_loop s ids acc = acc @ List.map_filter (users s) ids"
  by (induction ids arbitrary: acc) (auto simp: map_filter_simps split: option.splits)

text \<open>
  C8. For an existing user, GetFollowers returns, in the order of the follower list, the
  user stored under each follower ID that resolves in the users table; IDs that do not
  resolve are skipped and no error is returned. For an absent user it returns the
  user-not-found error.
\<close>

theorem GetFollowers_resolved:
  "(users s userID = None \<longrightarrow> GetFollowers s userID = Inl ErrUserNotFound) \<and>
   (\<forall>user. users s userID = Some user \<longrightarrow>
      GetFollowers s userID =
        Inr (map (\<lambda>ident. the (users s ident))
               (filter (\<lambda>ident. users s ident \<noteq> None) (uFollowerIDs user))))"
  by (auto simp: GetFollowers_def GetFollowers_loop_eq List.map_filter_def
           intro!: map_cong split: option.splits)

theorem GetFollowers_resolved_witness:
  "users store2 ''nobody'' = None \<and> GetFollowers store2 ''nobody'' = Inl ErrUserNotFound \<and>
   users store2 ''a'' = Some userA \<and> GetFollowers store2 ''a'' = Inr [userB, userB]"
  using GetFollowers_resolved [of store2 "''nobody''"] GetFollowers_resolved [of store2 "''a''"]
  by (simp add: store2_def userA_def)

section \<open>Store: updating a notification\<close>

lemma UpdateNotification_loop_None:
  "UpdateNotification_loop h p ns i = None \<longleftrightarrow> (\<forall>n \<in> set ns. nID (h n) \<noteq> nID (h p))"
  by (induction ns arbitrary: i) auto

lemma UpdateNotification_loop_Some:
  "UpdateNotification_loop h p ns i = Some j \<Longrightarrow>
     i \<le> j \<and> j - i < length ns \<and> nID (h (ns ! (j - i))) = nID (h p) \<and>
     (\<forall>k < j - i. nID (h (ns ! k)) \<noteq> nID (h p))"
proof (induction ns arbitrary: i)
  case Nil
  then show ?case by simp
next
  case (Cons n rest)
  show ?case
  proof (cases "nID (h n) = nID (h p)")
    case True
    with Cons.prems show ?thesis by simp
  next
    case False
    with Cons.prems have r: "UpdateNotification_loop h p rest (Suc i) = Some j" by simp
    from Cons.IH [OF r] have a: "Suc i \<le> j" and b: "j - Suc i < length rest"
      and c: "nID (h (rest ! (j - Suc i))) = nID (h p)"
      and d: "\<forall>k < j - Suc i. nID (h (rest ! k)) \<noteq> nID (h p)" by auto
    from a have e: "j - i = Suc (j - Suc i)" by simp
    show ?thesis using a b c d False unfolding e
      by (auto simp: nth_Cons split: nat.splits)
  qed
qed

lemma UpdateNotification_loop_first:
  "UpdateNotification_loop h p ns 0 = Some j \<Longrightarrow>
     j < length ns \<and> nID (h (ns ! j)) = nID (h p) \<and> (\<forall>k < j. nID (h (ns ! k)) \<noteq> nID (h p))"
  using UpdateNotification_loop_Some [of h p ns 0 j] by simp

text \<open>
  C6. UpdateNotification returns the user-not-found error exactly when the recipient has
  no notification list, the notification-not-found error exactly when the list exists and
  holds no entry with the given ID, and no error exactly when the list holds such an
  entry; in that case the first entry with the ID is replaced in place by the given
  notification. In both error cases the store is unchanged.
\<close>

theorem UpdateNotification_outcomes:
  "(fst (UpdateNotification h p s) = Some ErrUserNotFound \<longleftrightarrow>
      notifications s (nUserID (h p)) = None) \<and>
   (fst (UpdateNotification h p s) = Some ErrNotificationNotFound \<longleftrightarrow>
      (\<exists>ns. notifications s (nUserID (h p)) = Some ns \<and>
            (\<forall>n \<in> set ns. nID (h n) \<noteq> nID (h p)))) \<and>
   (fst (UpdateNotification h p s) = None \<longleftrightarrow>
      (\<exists>ns. notifications s (nUserID (h p)) = Some ns \<and>
            (\<exists>n \<in> set ns. nID (h n) = nID (h p)))) \<and>
   (fst (UpdateNotification h p s) = None \<longrightarrow>
      (\<exists>ns i. notifications s (nUserID (h p)) = Some ns \<and> i < length ns \<and>
         nID (h (ns ! i)) = nID (h p) \<and> (\<forall>k < i. nID (h (ns ! k)) \<noteq> nID (h p)) \<and>
         snd (UpdateNotification h p s) =
           s\<lparr>notifications := (notifications s)(nUserID (h p) \<mapsto> ns[i := p])\<rparr>)) \<and>
   (fst (UpdateNotification h p s) \<noteq> None \<longrightarrow> snd (UpdateNotification h p s) = s)"
proof (cases "notifications s (nUserID (h p))")
  case None
  then show ?thesis by (simp add: UpdateNotification_def)
next
  case (Some ns)
  show ?thesis
  proof (cases "UpdateNotification_loop h p ns 0")
    case None
    with Some UpdateNotification_loop_None [of h p ns 0] show ?thesis
      by (simp add: UpdateNotification_def)
  next
    case (Some i)
    note f = UpdateNotification_loop_first [OF Some]
    have ex: "\<exists>n \<in> set ns. nID (h n) = nID (h p)"
      using f nth_mem by blast
    from f ex \<open>notifications s (nUserID (h p)) = Some ns\<close> Some show ?thesis
      by (auto simp: UpdateNotification_def)
  qed
qed

theorem UpdateNotification_outcomes_witness:
  "fst (UpdateNotification heap2 5 store2) = Some ErrUserNotFound \<and>
   snd (UpdateNotification heap2 5 store2) = store2 \<and>
   fst (UpdateNotification heap2 4 store2) = Some ErrNotificationNotFound \<and>
   snd (UpdateNotification heap2 4 store2) = store2 \<and>
   fst (UpdateNotification heap2 2 store2) = None \<and>
   snd (UpdateNotification heap2 2 store2) =
     store2\<lparr>notifications := (notifications store2)(''user2'' \<mapsto> [0, 2, 2])\<rparr>"
  using UpdateNotification_outcomes [of heap2 5 store2]
        UpdateNotification_outcomes [of heap2 4 store2]
        UpdateNotification_outcomes [of heap2 2 store2]
  by (simp add: UpdateNotification_def heap2_def store2_def zeroNotification_def)

text \<open>
  C10. A successful UpdateNotification leaves the users map, the posts map and every other
  user's notification list unchanged; the recipient's list keeps its length, one entry
  whose ID matches now holds the given notification, and every other entry is unchanged.
\<close>

theorem UpdateNotification_frame:
  assumes "UpdateNotification h p s = (None, s')"
  shows "users s' = users s \<and> posts s' = posts s \<and>
         (\<forall>u. u \<noteq> nUserID (h p) \<longrightarrow> notifications s' u = notifications s u) \<and>
         (\<exists>ns ns' i. notifications s (nUserID (h p)) = Some ns \<and>
            notifications s' (nUserID (h p)) = Some ns' \<and>
            length ns' = length ns \<and> i < length ns \<and>
            nID (h (ns ! i)) = nID (h p) \<and> ns' ! i = p \<and>
            (\<forall>j < length ns. j \<noteq> i \<longrightarrow> ns' ! j = ns ! j))"
proof (cases "notifications s (nUserID (h p))")
  case None
  with assms show ?thesis by (simp add: UpdateNotification_def)
next
  case (Some ns)
  show ?thesis
  proof (cases "UpdateNotification_loop h p ns 0")
    case None
    with Some assms show ?thesis by (simp add: UpdateNotification_def)
  next
    case (Some i)
    note f = UpdateNotification_loop_first [OF Some]
    from assms Some \<open>notifications s (nUserID (h p)) = Some ns\<close>
    have s': "s' = s\<lparr>notifications := (notifications s)(nUserID (h p) \<mapsto> ns[i := p])\<rparr>"
      by (simp add: UpdateNotification_def)
    show ?thesis
      using f \<open>notifications s (nUserID (h p)) = Some ns\<close> unfolding s'
      by (intro conjI) (simp, simp, simp, rule exI [of _ ns], rule exI [of _ "ns[i := p]"],
          rule exI [of _ i], simp)
  qed
qed

theorem UpdateNotification_frame_witness:
  "UpdateNotification heap2 2 store2 =
     (None, store2\<lparr>notifications := (notifications store2)(''user2'' \<mapsto> [0, 2, 2])\<rparr>) \<and>
   users (store2\<lparr>notifications := (notifications store2)(''user2'' \<mapsto> [0, 2, 2])\<rparr>) =
     users store2 \<and>
   posts (store2\<lparr>notifications := (notifications store2)(''user2'' \<mapsto> [0, 2, 2])\<rparr>) =
     posts store2"
proof -
  have e: "UpdateNotification heap2 2 store2 =
     (None, store2\<lparr>notifications := (notifications store2)(''user2'' \<mapsto> [0, 2, 2])\<rparr>)"
    by (simp add: UpdateNotification_def heap2_def store2_def zeroNotification_def)
  show ?thesis
    using e UpdateNotification_frame [OF e] by simp
qed

section \<open>Store: reading a user's notifications\<close>





section \<open>Queue: bounded submission\<close>

lemma QueueNotifications_loop_eq:
  "QueueNotifications_loop ps queued q =
     (queued + int (min (length ps) (queue_cap q - length (queue q))),
      q\<lparr>queue := queue q @ take (queue_cap q - length (queue q)) ps\<rparr>)"
proof (induction ps arbitrary: queued q)
  case Nil
  show ?case by simp
next
  case (Cons p rest)
  show ?case
  proof (cases "length (queue q) < queue_cap q")
    case True
    then obtain k where k: "queue_cap q - length (queue q) = Suc k"
      by (metis Suc_diff_Suc)
    then have k': "queue_cap q - Suc (length (queue q)) = k" by simp
    show ?thesis using True by (simp add: Cons.IH k k')
  next
    case False
    then show ?thesis by (simp add: Cons.IH)
  qed
qed

text \<open>
  C5. The queue is built with a buffer of capacity 1000. A submission to a full buffer
  returns at once and leaves the queue as it was; a submission to a buffer with room
  appends the notification. Bulk submission returns exactly the number of notifications
  it put into the buffer, which is the smaller of the number submitted and the free
  room; so \<open>N + 1\<close> notifications submitted to an empty queue of capacity \<open>N\<close> are
  accepted but for the last, and the count returned is \<open>N\<close>.
\<close>

theorem QueueNotifications_bounded:
  "queue_cap (NewNotificationQueue wc) = 1000 \<and> queue (NewNotificationQueue wc) = [] \<and>
   (queue_cap q \<le> length (queue q) \<longrightarrow> QueueNotification p q = q) \<and>
   (length (queue q) < queue_cap q \<longrightarrow> QueueNotification p q = q\<lparr>queue := queue q @ [p]\<rparr>) \<and>
   QueueNotifications ps q =
     (int (min (length ps) (queue_cap q - length (queue q))),
      q\<lparr>queue := queue q @ take (queue_cap q - length (queue q)) ps\<rparr>) \<and>
   (queue q = [] \<and> length ps = queue_cap q + 1 \<longrightarrow>
      fst (QueueNotifications ps q) = int (queue_cap q) \<and>
      queue (snd (QueueNotifications ps q)) = butlast ps)"
  by (simp add: NewNotificationQueue_def QueueNotification_def QueueNotifications_def
        QueueNotifications_loop_eq butlast_conv_take)

theorem QueueNotifications_bounded_witness:
  "queue queue2 = [] \<and> length [7, 8, 9 :: ref] = queue_cap queue2 + 1 \<and>
   QueueNotifications [7, 8, 9] queue2 = (2, queue2\<lparr>queue := [7, 8]\<rparr>) \<and>
   queue_cap queue2 \<le> length (queue (queue2\<lparr>queue := [7, 8]\<rparr>)) \<and>
   QueueNotification 9 (queue2\<lparr>queue := [7, 8]\<rparr>) = queue2\<lparr>queue := [7, 8]\<rparr> \<and>
   length (queue queue2) < queue_cap queue2 \<and>
   QueueNotification 7 queue2 = queue2\<lparr>queue := [7]\<rparr>"
  using QueueNotifications_bounded [of 5 queue2 7 "[7, 8, 9]"]
        QueueNotifications_bounded [of 5 "queue2\<lparr>queue := [7, 8]\<rparr>" 9 "[]"]
  by (simp add: queue2_def NewNotificationQueue_def)

section \<open>Queue: metrics snapshot\<close>

lemma wrap64_id:
  assumes "- (2 ^ 63) \<le> k" and "k < 2 ^ 63"
  shows "wrap64 k = k"
proof -
  have "0 \<le> k + 2 ^ 63" and "k + 2 ^ 63 < 2 ^ 64"
    using assms by simp_all
  then have "(k + 2 ^ 63) mod 2 ^ 64 = k + 2 ^ 63"
    by (rule mod_pos_pos_trivial)
  then show ?thesis
    unfolding wrap64_def by simp
qed

lemma fold_durations:
  "\<forall>t \<in> set ts. 0 \<le> t \<Longrightarrow> 0 \<le> acc \<Longrightarrow> acc + sum_list ts < 2 ^ 63 \<Longrightarrow>
   fold (\<lambda>t sum. wrap64 (sum + t)) ts acc = acc + sum_list ts"
proof (induction ts arbitrary: acc)
  case Nil
  show ?case by simp
next
  case (Cons t ts)
  have t0: "0 \<le> t" using Cons.prems(1) by simp
  have s0: "0 \<le> sum_list ts" using Cons.prems(1) by (simp add: sum_list_nonneg)
  have w: "wrap64 (acc + t) = acc + t"
    using Cons.prems t0 s0 by (intro wrap64_id) auto
  show ?case
    using Cons.IH [of "acc + t"] Cons.prems t0 by (simp add: w add.assoc)
qed

lemma go_div_nonneg: "0 \<le> a \<Longrightarrow> 0 < b \<Longrightarrow> go_div a b = a div b"
  by (cases "a = 0") (simp_all add: go_div_def)

lemma avgDeliveryTime_mean:
  "ts \<noteq> [] \<Longrightarrow> \<forall>t \<in> set ts. 0 \<le> t \<Longrightarrow> sum_list ts < 2 ^ 63 \<Longrightarrow>
   avgDeliveryTime ts = sum_list ts div int (length ts)"
  using fold_durations [of ts 0]
  by (simp add: avgDeliveryTime_def sum_durations_def go_div_nonneg sum_list_nonneg)

text \<open>
  C9. The metrics snapshot has exactly the six fields: the three counters, the mean of the
  delivery durations rendered as a string (zero for an empty list; for a non-empty list
  of non-negative durations whose sum fits in 64 bits, the sum divided by the count, in
  whole nanoseconds), the current length of the buffer, and the worker count of the
  queue, which construction sets to the configured pool size (10 when the configured
  value is not positive).
\<close>

theorem GetMetrics_snapshot:
  "dom (GetMetrics String q) =
     {''total_sent'', ''failed_attempts'', ''total_retries'', ''avg_delivery_time'',
      ''queue_size'', ''worker_count''} \<and>
   GetMetrics String q ''total_sent'' = Some (Int64 (TotalSent (metrics q))) \<and>
   GetMetrics String q ''failed_attempts'' = Some (Int64 (FailedAttempts (metrics q))) \<and>
   GetMetrics String q ''total_retries'' = Some (Int64 (TotalRetries (metrics q))) \<and>
   GetMetrics String q ''avg_delivery_time'' =
     Some (GoString (String (avgDeliveryTime (deliveryTimes (metrics q))))) \<and>
   avgDeliveryTime [] = 0 \<and>
   (deliveryTimes (metrics q) \<noteq> [] \<and> (\<forall>t \<in> set (deliveryTimes (metrics q)). 0 \<le> t) \<and>
    sum_list (deliveryTimes (metrics q)) < 2 ^ 63 \<longrightarrow>
      avgDeliveryTime (deliveryTimes (metrics q)) =
        sum_list (deliveryTimes (metrics q)) div int (length (deliveryTimes (metrics q)))) \<and>
   GetMetrics String q ''queue_size'' = Some (GoInt (int (length (queue q)))) \<and>
   GetMetrics String q ''worker_count'' = Some (GoInt (workerCount q)) \<and>
   workerCount (NewNotificationQueue wc) = (if wc \<le> 0 then 10 else wc)"
proof -
  have d: "dom (GetMetrics String q) =
     {''total_sent'', ''failed_attempts'', ''total_retries'', ''avg_delivery_time'',
      ''queue_size'', ''worker_count''}"
    by (simp add: GetMetrics_def insert_commute)
  have v: "GetMetrics String q ''total_sent'' = Some (Int64 (TotalSent (metrics q))) \<and>
   GetMetrics String q ''failed_attempts'' = Some (Int64 (FailedAttempts (metrics q))) \<and>
   GetMetrics String q ''total_retries'' = Some (Int64 (TotalRetries (metrics q))) \<and>
   GetMetrics String q ''avg_delivery_time'' =
     Some (GoString (String (avgDeliveryTime (deliveryTimes (metrics q))))) \<and>
   GetMetrics String q ''queue_size'' = Some (GoInt (int (length (queue q)))) \<and>
   GetMetrics String q ''worker_count'' = Some (GoInt (workerCount q))"
    by (simp add: GetMetrics_def)
  have z: "avgDeliveryTime [] = 0" by (simp add: avgDeliveryTime_def)
  have w: "workerCount (NewNotificationQueue wc) = (if wc \<le> 0 then 10 else wc)"
    by (simp add: NewNotificationQueue_def maxWorkers_def)
  have m: "deliveryTimes (metrics q) \<noteq> [] \<and> (\<forall>t \<in> set (deliveryTimes (metrics q)). 0 \<le> t) \<and>
    sum_list (deliveryTimes (metrics q)) < 2 ^ 63 \<longrightarrow>
      avgDeliveryTime (deliveryTimes (metrics q)) =
        sum_list (deliveryTimes (metrics q)) div int (length (deliveryTimes (metrics q)))"
    using avgDeliveryTime_mean [of "deliveryTimes (metrics q)"] by blast
  from d v z w m show ?thesis by (intro conjI) (rule d, (simp only:)+)
qed

theorem GetMetrics_snapshot_witness:
  "deliveryTimes (metrics (nq sys2)) \<noteq> [] \<and>
   deliveryTimes (metrics (nq sys2)) = [10000000, 10000001] \<and>
   (0 :: int) \<le> 10000000 \<and> (0 :: int) \<le> 10000001 \<and>
   sum_list (deliveryTimes (metrics (nq sys2))) < 2 ^ 63 \<and>
   avgDeliveryTime (deliveryTimes (metrics (nq sys2))) = 10000000 \<and>
   GetMetrics (\<lambda>d. if d = 10000000 then ''10ms'' else ''other'') (nq sys2) ''avg_delivery_time'' =
     Some (GoString ''10ms'') \<and>
   GetMetrics (\<lambda>d. if d = 10000000 then ''10ms'' else ''other'') (nq sys2) ''queue_size'' =
     Some (GoInt 1) \<and>
   GetMetrics (\<lambda>d. if d = 10000000 then ''10ms'' else ''other'') (nq sys2) ''worker_count'' =
     Some (GoInt 10)"
  using GetMetrics_snapshot [of "\<lambda>d. if d = 10000000 then ''10ms'' else ''other''" "nq sys2" 0]
  by (simp add: sys2_def metrics2_def NewNotificationQueue_def maxWorkers_def)

section \<open>Worker: retry backoff\<close>

lemma backoff_values:
  "backoff_of 1 = 100 * Millisecond" "backoff_of 2 = 200 * Millisecond"
  "backoff_of 3 = 400 * Millisecond"
  by (simp_all add: backoff_of_def pow2_Duration_def wrap64_def initialBackoff_def Millisecond_def)

lemma processNotification_fail_attempts:
  "nAttempts (mem (processNotification True elapsed p s) p) = wrap64 (nAttempts (mem s p) + 1)"
  by (simp add: processNotification_def Let_def set_Attempts_def set_Status_def split_def)

lemma processNotification_fail_sleepers:
  assumes "wrap64 (nAttempts (mem s p) + 1) \<le> maxRetries"
  shows "sleepers (processNotification True elapsed p s) =
     sleepers s @ [(p, backoff_of (wrap64 (nAttempts (mem s p) + 1)))]"
proof -
  have "nAttempts (set_Attempts p (wrap64 (nAttempts (mem s p) + 1)) (mem s) p) \<le> maxRetries"
    using assms by (simp add: set_Attempts_def)
  then show ?thesis
    unfolding processNotification_def Let_def split_def
    by (simp add: set_Attempts_def)
qed

text \<open>
  C2. When a delivery attempt fails and the attempts counter after the increment is
  \<open>a\<close> with \<open>a\<close> in \<open>{1, 2, 3}\<close>, the retry is scheduled with the delay
  \<open>initialBackoff * 2 ^ (a - 1)\<close>, where \<open>initialBackoff\<close> is 100 ms: 100 ms, 200 ms and
  400 ms for attempts 1, 2 and 3. The delay is a function of the attempt number alone.
\<close>

theorem retry_backoff:
  assumes "nAttempts (mem (processNotification True elapsed p s) p) = a"
    and "a \<in> {1, 2, 3}"
  shows "sleepers (processNotification True elapsed p s) = sleepers s @ [(p, backoff_of a)] \<and>
         backoff_of a = initialBackoff * 2 ^ nat (a - 1) \<and>
         initialBackoff = 100 * Millisecond \<and>
         backoff_of 1 = 100 * Millisecond \<and> backoff_of 2 = 200 * Millisecond \<and>
         backoff_of 3 = 400 * Millisecond"
proof -
  from assms(1) have a: "wrap64 (nAttempts (mem s p) + 1) = a"
    by (simp add: processNotification_fail_attempts)
  from assms(2) have le: "a \<le> maxRetries" by (auto simp: maxRetries_def)
  have b: "backoff_of a = initialBackoff * 2 ^ nat (a - 1)"
    using assms(2) backoff_values by (auto simp: initialBackoff_def)
  have c: "sleepers (processNotification True elapsed p s) = sleepers s @ [(p, backoff_of a)]"
    using processNotification_fail_sleepers [of s p elapsed] a le by simp
  have d: "initialBackoff = 100 * Millisecond" by (simp add: initialBackoff_def)
  show ?thesis using b c d backoff_values by blast
qed


theorem retry_backoff_witness:
  "nAttempts (mem (processNotification True 12000000 1 sys2) 1) = 1 \<and>
   (1::int) \<in> {1, 2, 3} \<and>
   sleepers (processNotification True 12000000 1 sys2) = [(1, 100000000)]"
  using retry_backoff [of 12000000 1 sys2 1]
  by (simp add: processNotification_fail_attempts sys2_def heap2_def zeroNotification_def
        wrap64_def Millisecond_def)

section \<open>The pipeline: attempts and terminal states\<close>

lemma PublishPost_loop_props:
  "PublishPost_loop fs post fresh j (s, acc) = (s', acc') \<Longrightarrow>
     nextRef s' = nextRef s + length fs \<and>
     acc' = acc @ [nextRef s ..< nextRef s + length fs] \<and>
     (\<forall>r < nextRef s. mem s' r = mem s r) \<and>
     (\<forall>r. nextRef s \<le> r \<and> r < nextRef s + length fs \<longrightarrow>
        nStatus (mem s' r) = StatusQueued \<and> nAttempts (mem s' r) = 0) \<and>
     nq s' = nq s \<and> inflight s' = inflight s \<and> sleepers s' = sleepers s \<and>
     posts (mstore s') = posts (mstore s) \<and> users (mstore s') = users (mstore s)"
proof (induction fs arbitrary: j s acc)
  case Nil
  then show ?case by auto
next
  case (Cons f rest)
  define h where "h = (mem s)(nextRef s := NewNotification (uID f) post (fst (fresh j)) (snd (fresh j)))"
  define s1 where "s1 = s\<lparr>mem := h, nextRef := Suc (nextRef s),
                         mstore := snd (SaveNotification h (nextRef s) (mstore s))\<rparr>"
  have r: "PublishPost_loop rest post fresh (Suc j) (s1, acc @ [nextRef s]) = (s', acc')"
    using Cons.prems by (simp add: Let_def SaveNotification_def h_def s1_def)
  note ih = Cons.IH [OF r]
  have n1: "nextRef s1 = Suc (nextRef s)" by (simp add: s1_def)
  have m1: "\<And>r. r \<noteq> nextRef s \<Longrightarrow> mem s1 r = mem s r" by (simp add: s1_def h_def)
  have m2: "nStatus (mem s1 (nextRef s)) = StatusQueued \<and> nAttempts (mem s1 (nextRef s)) = 0"
    by (simp add: s1_def h_def NewNotification_def)
  have o1: "nq s1 = nq s \<and> inflight s1 = inflight s \<and> sleepers s1 = sleepers s \<and>
            posts (mstore s1) = posts (mstore s) \<and> users (mstore s1) = users (mstore s)"
    by (simp add: s1_def SaveNotification_def)
  have u: "[nextRef s ..< nextRef s + length (f # rest)] =
           nextRef s # [Suc (nextRef s) ..< Suc (nextRef s) + length rest]"
    by (subst upt_rec) simp
  have a: "nextRef s' = nextRef s + length (f # rest)" using ih n1 by simp
  have b: "acc' = acc @ [nextRef s ..< nextRef s + length (f # rest)]"
    using ih n1 unfolding u by simp
  have c: "\<forall>r < nextRef s. mem s' r = mem s r" using ih n1 m1 by simp
  have d: "\<forall>r. nextRef s \<le> r \<and> r < nextRef s + length (f # rest) \<longrightarrow>
        nStatus (mem s' r) = StatusQueued \<and> nAttempts (mem s' r) = 0"
  proof (intro allI impI)
    fix r assume r: "nextRef s \<le> r \<and> r < nextRef s + length (f # rest)"
    show "nStatus (mem s' r) = StatusQueued \<and> nAttempts (mem s' r) = 0"
    proof (cases "r = nextRef s")
      case True
      then have "mem s' r = mem s1 r" using ih n1 by simp
      then show ?thesis using m2 True by simp
    next
      case False
      then have "nextRef s1 \<le> r \<and> r < nextRef s1 + length rest" using r n1 by simp
      then show ?thesis using ih by blast
    qed
  qed
  show ?case using a b c d ih o1 by simp
qed

lemma time_Unix_zero: "time_Unix 0 0 = \<lparr>t_sec = 62135596800, t_nsec = 0\<rparr>"
  by (simp add: time_Unix_def unixTime_def unixToInternal_def wrap64_def)

text \<open>What a PublishPost call does to the shared state, apart from the store.\<close>

lemma PublishPost_state:
  "\<exists>m k. nextRef (snd (PublishPost req uuid now fresh s)) = nextRef s + m \<and>
     (\<forall>r < nextRef s. mem (snd (PublishPost req uuid now fresh s)) r = mem s r) \<and>
     (\<forall>r. nextRef s \<le> r \<and> r < nextRef s + m \<longrightarrow>
        nStatus (mem (snd (PublishPost req uuid now fresh s)) r) = StatusQueued \<and>
        nAttempts (mem (snd (PublishPost req uuid now fresh s)) r) = 0) \<and>
     queue (nq (snd (PublishPost req uuid now fresh s))) =
       queue (nq s) @ take k [nextRef s ..< nextRef s + m] \<and>
     inflight (snd (PublishPost req uuid now fresh s)) = inflight s \<and>
     sleepers (snd (PublishPost req uuid now fresh s)) = sleepers s"
proof -
  define post where "post =
    (let post0 = \<lparr>pID = req_id req, pAuthorID = req_author_id req, pContent = req_content req,
                   pCreatedAt = time_Unix (req_created_at req) 0\<rparr>;
         post1 = (if pID post0 = '''' then post0\<lparr>pID := uuid\<rparr> else post0)
     in (if IsZero (pCreatedAt post1) then post1\<lparr>pCreatedAt := now\<rparr> else post1))"
  define s1 where "s1 = s\<lparr>mstore := snd (SavePost post (mstore s))\<rparr>"
  show ?thesis
  proof (cases "GetFollowers (mstore s1) (pAuthorID post)")
    case (Inl e)
    then have "snd (PublishPost req uuid now fresh s) = s1"
      by (simp add: PublishPost_def Let_def SavePost_def post_def s1_def)
    then show ?thesis
      by (intro exI [of _ 0]) (auto simp: s1_def)
  next
    case (Inr followers)
    obtain s2 ns where l: "PublishPost_loop followers post fresh 0 (s1, []) = (s2, ns)"
      by (cases "PublishPost_loop followers post fresh 0 (s1, [])") auto
    note p = PublishPost_loop_props [OF l]
    have e: "snd (PublishPost req uuid now fresh s) =
             s2\<lparr>nq := snd (QueueNotifications ns (nq s2))\<rparr>"
      using Inr l
      by (simp add: PublishPost_def Let_def SavePost_def post_def s1_def split_def)
    have n: "nextRef s1 = nextRef s" "mem s1 = mem s" "nq s1 = nq s" "inflight s1 = inflight s"
      "sleepers s1 = sleepers s" by (simp_all add: s1_def)
    show ?thesis
      unfolding e using p n
      by (intro exI [of _ "length followers"]
                exI [of _ "queue_cap (nq s) - length (queue (nq s))"])
         (simp add: QueueNotifications_def QueueNotifications_loop_eq)
  qed
qed


lemma remove_nth_split:
  "i < length xs \<Longrightarrow> \<exists>ys zs. xs = ys @ xs ! i # zs \<and> remove_nth i xs = ys @ zs"
  by (intro exI [of _ "take i xs"] exI [of _ "drop (Suc i) xs"])
     (simp add: remove_nth_def id_take_nth_drop [symmetric])

lemma processNotification_frame:
  "nextRef (processNotification f e p s) = nextRef s"
  "inflight (processNotification f e p s) = inflight s"
  "queue (nq (processNotification f e p s)) = queue (nq s)"
  "r \<noteq> p \<Longrightarrow> mem (processNotification f e p s) r = mem s r"
  by (simp_all add: processNotification_def Let_def set_Attempts_def set_Status_def split_def)

lemma processNotification_success:
  "nStatus (mem (processNotification False e p s) p) = StatusDelivered"
  "nAttempts (mem (processNotification False e p s) p) = nAttempts (mem s p)"
  "sleepers (processNotification False e p s) = sleepers s"
  by (simp_all add: processNotification_def Let_def set_Status_def split_def)

lemma processNotification_retry:
  assumes "wrap64 (nAttempts (mem s p) + 1) \<le> maxRetries"
  shows "nStatus (mem (processNotification True e p s) p) = StatusRetrying"
    and "\<exists>d. sleepers (processNotification True e p s) = sleepers s @ [(p, d)]"
proof -
  have a: "nAttempts (set_Attempts p (wrap64 (nAttempts (mem s p) + 1)) (mem s) p) \<le> maxRetries"
    using assms by (simp add: set_Attempts_def)
  show "nStatus (mem (processNotification True e p s) p) = StatusRetrying"
    using a unfolding processNotification_def Let_def split_def
    by (simp add: set_Status_def)
  show "\<exists>d. sleepers (processNotification True e p s) = sleepers s @ [(p, d)]"
    using a unfolding processNotification_def Let_def split_def
    by simp
qed

lemma processNotification_exhausted:
  assumes "\<not> wrap64 (nAttempts (mem s p) + 1) \<le> maxRetries"
  shows "nStatus (mem (processNotification True e p s) p) = StatusFailed"
    and "sleepers (processNotification True e p s) = sleepers s"
proof -
  have a: "\<not> nAttempts (set_Attempts p (wrap64 (nAttempts (mem s p) + 1)) (mem s) p) \<le> maxRetries"
    using assms by (simp add: set_Attempts_def)
  show "nStatus (mem (processNotification True e p s) p) = StatusFailed"
    using a unfolding processNotification_def Let_def split_def
    by (simp add: set_Status_def)
  show "sleepers (processNotification True e p s) = sleepers s"
    using a unfolding processNotification_def Let_def split_def
    by simp
qed

lemma pipeline_inv_init: "pipeline_inv (init_system loadSample clock wc)"
  by (simp add: pipeline_inv_def pending_def init_system_def NewNotificationQueue_def)

lemma step_Publish:
  assumes "pipeline_inv s"
  shows "pipeline_inv (snd (PublishPost req uuid now fresh s)) \<and>
         preserved s (snd (PublishPost req uuid now fresh s))"
proof -
  define s' where "s' = snd (PublishPost req uuid now fresh s)"
  obtain m k where n: "nextRef s' = nextRef s + m"
    and old: "\<forall>r < nextRef s. mem s' r = mem s r"
    and new: "\<forall>r. nextRef s \<le> r \<and> r < nextRef s + m \<longrightarrow>
        nStatus (mem s' r) = StatusQueued \<and> nAttempts (mem s' r) = 0"
    and q: "queue (nq s') = queue (nq s) @ take k [nextRef s ..< nextRef s + m]"
    and i: "inflight s' = inflight s" and sl: "sleepers s' = sleepers s"
    using PublishPost_state [of req uuid now fresh s] unfolding s'_def by blast
  have lt: "\<forall>r \<in> set (pending s). r < nextRef s"
    using assms by (simp add: pipeline_inv_def)
  have tk: "\<forall>r \<in> set (take k [nextRef s ..< nextRef s + m]). nextRef s \<le> r \<and> r < nextRef s + m"
    using set_take_subset [of k "[nextRef s ..< nextRef s + m]"] by auto
  have p: "pending s' = queue (nq s) @ take k [nextRef s ..< nextRef s + m] @ inflight s @
             map fst (sleepers s)"
    by (simp add: pending_def q i sl)
  have d: "distinct (pending s')"
  proof -
    define A where "A = queue (nq s)"
    define B where "B = inflight s @ map fst (sleepers s)"
    define T where "T = take k [nextRef s ..< nextRef s + m]"
    have ab: "pending s = A @ B" by (simp add: pending_def A_def B_def)
    have d0: "distinct (A @ B)" using assms by (simp add: pipeline_inv_def ab)
    have dt: "distinct T" by (simp add: T_def)
    have dj: "set T \<inter> (set A \<union> set B) = {}"
    proof -
      have "False" if "x \<in> set T" and "x \<in> set A \<union> set B" for x
      proof -
        from that(1) have "nextRef s \<le> x" using tk by (simp add: T_def)
        moreover from that(2) have "x < nextRef s" using lt by (simp add: ab)
        ultimately show False by simp
      qed
      then show ?thesis by blast
    qed
    have "distinct (A @ T @ B)" using d0 dt dj by auto
    then show ?thesis unfolding p by (simp add: A_def B_def T_def)
  qed
  have a: "\<forall>r \<in> set (pending s'). r < nextRef s' \<and>
        (nStatus (mem s' r) = StatusQueued \<or> nStatus (mem s' r) = StatusRetrying) \<and>
        nAttempts (mem s' r) \<le> maxRetries"
  proof
    fix r assume r: "r \<in> set (pending s')"
    show "r < nextRef s' \<and>
        (nStatus (mem s' r) = StatusQueued \<or> nStatus (mem s' r) = StatusRetrying) \<and>
        nAttempts (mem s' r) \<le> maxRetries"
    proof (cases "r \<in> set (pending s)")
      case True
      then have r1: "r < nextRef s" using lt by blast
      have r2: "(nStatus (mem s r) = StatusQueued \<or> nStatus (mem s r) = StatusRetrying) \<and>
                nAttempts (mem s r) \<le> maxRetries"
        using assms True unfolding pipeline_inv_def by blast
      have "mem s' r = mem s r" using old r1 by blast
      then show ?thesis using r1 r2 n by simp
    next
      case False
      then have "r \<in> set (take k [nextRef s ..< nextRef s + m])"
        using r unfolding p by (auto simp: pending_def)
      then have "nextRef s \<le> r \<and> r < nextRef s + m" using tk by blast
      then show ?thesis using new n by (simp add: maxRetries_def)
    qed
  qed
  have b: "\<forall>r < nextRef s'. 0 \<le> nAttempts (mem s' r) \<and> nAttempts (mem s' r) \<le> maxRetries + 1"
  proof (intro allI impI)
    fix r assume r: "r < nextRef s'"
    show "0 \<le> nAttempts (mem s' r) \<and> nAttempts (mem s' r) \<le> maxRetries + 1"
    proof (cases "r < nextRef s")
      case True
      have r2: "0 \<le> nAttempts (mem s r) \<and> nAttempts (mem s r) \<le> maxRetries + 1"
        using assms True unfolding pipeline_inv_def by blast
      have "mem s' r = mem s r" using old True by blast
      then show ?thesis using r2 by simp
    next
      case False
      then have "nextRef s \<le> r \<and> r < nextRef s + m" using r n by simp
      then show ?thesis using new by (simp add: maxRetries_def)
    qed
  qed
  have c: "preserved s s'"
    using n old by (simp add: preserved_def)
  show ?thesis
    using d a b c unfolding s'_def [symmetric] by (simp add: pipeline_inv_def)
qed

lemma step_Take:
  assumes "pipeline_inv s" and "queue (nq s) = p # rest"
  shows "pipeline_inv (s\<lparr>nq := (nq s)\<lparr>queue := rest\<rparr>, inflight := inflight s @ [p]\<rparr>) \<and>
         preserved s (s\<lparr>nq := (nq s)\<lparr>queue := rest\<rparr>, inflight := inflight s @ [p]\<rparr>)"
  using assms by (auto simp: pipeline_inv_def pending_def preserved_def)

lemma step_Fire:
  assumes "pipeline_inv s" and "i < length (sleepers s)"
  shows "pipeline_inv (s\<lparr>sleepers := remove_nth i (sleepers s),
                         nq := QueueNotification (fst (sleepers s ! i)) (nq s)\<rparr>) \<and>
         preserved s (s\<lparr>sleepers := remove_nth i (sleepers s),
                         nq := QueueNotification (fst (sleepers s ! i)) (nq s)\<rparr>)"
proof -
  obtain ys zs where sp: "sleepers s = ys @ sleepers s ! i # zs"
    and rm: "remove_nth i (sleepers s) = ys @ zs"
    using remove_nth_split [OF assms(2)] by blast
  obtain p d where pd: "sleepers s ! i = (p, d)" by (cases "sleepers s ! i") auto
  have ps: "pending s = queue (nq s) @ inflight s @ map fst ys @ p # map fst zs"
    by (subst pending_def, subst sp) (simp add: pd)
  show ?thesis
    using assms(1) unfolding pipeline_inv_def preserved_def ps
    by (auto simp: pending_def rm pd QueueNotification_def)
qed


lemma step_Pass:
  assumes "pipeline_inv s" and "i < length (inflight s)"
  shows "pipeline_inv (processNotification f e (inflight s ! i)
                         (s\<lparr>inflight := remove_nth i (inflight s)\<rparr>)) \<and>
         preserved s (processNotification f e (inflight s ! i)
                         (s\<lparr>inflight := remove_nth i (inflight s)\<rparr>))"
proof -
  define p where "p = inflight s ! i"
  define s0 where "s0 = s\<lparr>inflight := remove_nth i (inflight s)\<rparr>"
  define s' where "s' = processNotification f e p s0"
  obtain ys zs where sp: "inflight s = ys @ p # zs" and rm: "remove_nth i (inflight s) = ys @ zs"
    using remove_nth_split [OF assms(2)] unfolding p_def by blast
  have ps: "pending s = queue (nq s) @ ys @ p # zs @ map fst (sleepers s)"
    by (simp add: pending_def sp)
  define R where "R = queue (nq s) @ ys @ zs @ map fst (sleepers s)"
  have dR: "distinct R" and pR: "p \<notin> set R"
    using assms(1) unfolding pipeline_inv_def ps R_def by auto
  have sub: "set R \<subseteq> set (pending s)" unfolding ps R_def by auto
  have pin: "p \<in> set (pending s)" unfolding ps by simp
  have pfacts: "p < nextRef s"
    "nStatus (mem s p) = StatusQueued \<or> nStatus (mem s p) = StatusRetrying"
    "nAttempts (mem s p) \<le> maxRetries" "0 \<le> nAttempts (mem s p)"
    using assms(1) pin unfolding pipeline_inv_def by blast+
  have m0: "mem s0 = mem s" "nextRef s0 = nextRef s" "sleepers s0 = sleepers s"
    "queue (nq s0) = queue (nq s)" "inflight s0 = ys @ zs"
    by (simp_all add: s0_def rm)
  have n': "nextRef s' = nextRef s" and i': "inflight s' = ys @ zs"
    and q': "queue (nq s') = queue (nq s)"
    and o': "\<And>r. r \<noteq> p \<Longrightarrow> mem s' r = mem s r"
    by (simp_all add: s'_def processNotification_frame m0)
  have w: "wrap64 (nAttempts (mem s p) + 1) = nAttempts (mem s p) + 1"
    using pfacts by (intro wrap64_id) (simp_all add: maxRetries_def)
  have Rinv: "\<forall>r \<in> set R. r < nextRef s' \<and>
        (nStatus (mem s' r) = StatusQueued \<or> nStatus (mem s' r) = StatusRetrying) \<and>
        nAttempts (mem s' r) \<le> maxRetries"
  proof
    fix r assume r: "r \<in> set R"
    then have ne: "r \<noteq> p" using pR by blast
    from r sub have "r \<in> set (pending s)" by blast
    then have "r < nextRef s \<and>
        (nStatus (mem s r) = StatusQueued \<or> nStatus (mem s r) = StatusRetrying) \<and>
        nAttempts (mem s r) \<le> maxRetries"
      using assms(1) unfolding pipeline_inv_def by blast
    then show "r < nextRef s' \<and>
        (nStatus (mem s' r) = StatusQueued \<or> nStatus (mem s' r) = StatusRetrying) \<and>
        nAttempts (mem s' r) \<le> maxRetries"
      using o' [OF ne] n' by simp
  qed
  have old: "\<And>r. r < nextRef s \<Longrightarrow>
       0 \<le> nAttempts (mem s r) \<and> nAttempts (mem s r) \<le> maxRetries + 1"
    using assms(1) unfolding pipeline_inv_def by blast
  have terminal: "nStatus (mem s p) \<noteq> StatusDelivered" "nStatus (mem s p) \<noteq> StatusFailed"
    using pfacts(2) by auto
  consider (ok) "\<not> f" | (retry) "f" "nAttempts (mem s p) + 1 \<le> maxRetries"
    | (exhausted) "f" "\<not> nAttempts (mem s p) + 1 \<le> maxRetries" by blast
  then have main: "pipeline_inv s' \<and>
     nAttempts (mem s p) \<le> nAttempts (mem s' p)"
  proof cases
    case ok
    then have st: "nStatus (mem s' p) = StatusDelivered"
      and at: "nAttempts (mem s' p) = nAttempts (mem s p)"
      and sl: "sleepers s' = sleepers s"
      by (simp_all add: s'_def processNotification_success m0)
    have pe: "pending s' = R" by (simp add: pending_def R_def q' i' sl)
    have b: "\<forall>r < nextRef s'. 0 \<le> nAttempts (mem s' r) \<and> nAttempts (mem s' r) \<le> maxRetries + 1"
      using old o' at n' by metis
    show ?thesis using dR Rinv b at unfolding pipeline_inv_def pe by simp
  next
    case retry
    then have le: "wrap64 (nAttempts (mem s0 p) + 1) \<le> maxRetries" by (simp add: w m0)
    have st: "nStatus (mem s' p) = StatusRetrying"
      using processNotification_retry(1) [OF le] retry(1) by (simp add: s'_def)
    obtain d where sl: "sleepers s' = sleepers s @ [(p, d)]"
      using processNotification_retry(2) [OF le, of e] retry(1) by (auto simp: s'_def m0)
    have at: "nAttempts (mem s' p) = nAttempts (mem s p) + 1"
      using retry(1) by (simp add: s'_def processNotification_fail_attempts m0 w)
    have pe: "pending s' = R @ [p]" by (simp add: pending_def R_def q' i' sl)
    have b: "\<forall>r < nextRef s'. 0 \<le> nAttempts (mem s' r) \<and> nAttempts (mem s' r) \<le> maxRetries + 1"
    proof (intro allI impI)
      fix r assume "r < nextRef s'"
      then have r: "r < nextRef s" using n' by simp
      show "0 \<le> nAttempts (mem s' r) \<and> nAttempts (mem s' r) \<le> maxRetries + 1"
      proof (cases "r = p")
        case True
        then show ?thesis using at pfacts retry(2) by simp
      next
        case False
        then show ?thesis using old [OF r] o' by simp
      qed
    qed
    have pi: "p < nextRef s' \<and>
        (nStatus (mem s' p) = StatusQueued \<or> nStatus (mem s' p) = StatusRetrying) \<and>
        nAttempts (mem s' p) \<le> maxRetries"
      using st at retry(2) pfacts(1) n' by simp
    show ?thesis using dR pR Rinv b pi at unfolding pipeline_inv_def pe by simp
  next
    case exhausted
    then have le: "\<not> wrap64 (nAttempts (mem s0 p) + 1) \<le> maxRetries" by (simp add: w m0)
    have st: "nStatus (mem s' p) = StatusFailed"
      using processNotification_exhausted(1) [OF le] exhausted(1) by (simp add: s'_def)
    have sl: "sleepers s' = sleepers s"
      using processNotification_exhausted(2) [OF le, of e] exhausted(1) by (simp add: s'_def m0)
    have at: "nAttempts (mem s' p) = nAttempts (mem s p) + 1"
      using exhausted(1) by (simp add: s'_def processNotification_fail_attempts m0 w)
    have pe: "pending s' = R" by (simp add: pending_def R_def q' i' sl)
    have b: "\<forall>r < nextRef s'. 0 \<le> nAttempts (mem s' r) \<and> nAttempts (mem s' r) \<le> maxRetries + 1"
    proof (intro allI impI)
      fix r assume "r < nextRef s'"
      then have r: "r < nextRef s" using n' by simp
      show "0 \<le> nAttempts (mem s' r) \<and> nAttempts (mem s' r) \<le> maxRetries + 1"
      proof (cases "r = p")
        case True
        then show ?thesis using at pfacts by simp
      next
        case False
        then show ?thesis using old [OF r] o' by simp
      qed
    qed
    show ?thesis using dR Rinv b at unfolding pipeline_inv_def pe by simp
  qed
  have pres: "preserved s s'"
    unfolding preserved_def
  proof (intro conjI allI impI)
    show "nextRef s \<le> nextRef s'" using n' by simp
  next
    fix r assume "r < nextRef s"
    show "nAttempts (mem s r) \<le> nAttempts (mem s' r)"
      using main o' [of r] by (cases "r = p") simp_all
  next
    fix r assume "r < nextRef s" and "nStatus (mem s r) = StatusDelivered"
    then show "nStatus (mem s' r) = StatusDelivered"
      using terminal o' [of r] by (cases "r = p") simp_all
  next
    fix r assume "r < nextRef s" and "nStatus (mem s r) = StatusFailed"
    then show "nStatus (mem s' r) = StatusFailed"
      using terminal o' [of r] by (cases "r = p") simp_all
  qed
  show ?thesis using main pres unfolding s'_def s0_def p_def by simp
qed

lemma step_inv:
  assumes "pipeline_inv s" and "step ev s = Some s'"
  shows "pipeline_inv s' \<and> preserved s s'"
proof (cases ev)
  case (Publish req uuid now fresh)
  with assms(2) step_Publish [OF assms(1), of req uuid now fresh] show ?thesis by auto
next
  case Take
  with assms(2) obtain p rest where q: "queue (nq s) = p # rest"
    and s': "s' = s\<lparr>nq := (nq s)\<lparr>queue := rest\<rparr>, inflight := inflight s @ [p]\<rparr>"
    by (auto split: list.splits if_splits)
  show ?thesis using step_Take [OF assms(1) q] s' by simp
next
  case (Pass i f e)
  with assms(2) have i: "i < length (inflight s)"
    and s': "s' = processNotification f e (inflight s ! i) (s\<lparr>inflight := remove_nth i (inflight s)\<rparr>)"
    by (auto split: if_splits)
  show ?thesis using step_Pass [OF assms(1) i, of f e] s' by simp
next
  case (Fire i)
  with assms(2) have i: "i < length (sleepers s)"
    and s': "s' = s\<lparr>sleepers := remove_nth i (sleepers s),
                    nq := QueueNotification (fst (sleepers s ! i)) (nq s)\<rparr>"
    by (auto split: if_splits)
  show ?thesis using step_Fire [OF assms(1) i] s' by simp
qed

lemma preserved_refl: "preserved s s"
  by (simp add: preserved_def)

lemma preserved_trans: "preserved s s1 \<Longrightarrow> preserved s1 s2 \<Longrightarrow> preserved s s2"
  unfolding preserved_def by (meson le_trans less_le_trans order_trans)

lemma run_inv:
  "pipeline_inv s \<Longrightarrow> run es s = Some s' \<Longrightarrow> pipeline_inv s' \<and> preserved s s'"
proof (induction es arbitrary: s)
  case Nil
  then show ?case by (simp add: preserved_refl)
next
  case (Cons ev es)
  from Cons.prems(2) obtain s1 where s1: "step ev s = Some s1" and r: "run es s1 = Some s'"
    by (auto split: option.splits)
  from step_inv [OF Cons.prems(1) s1] have i1: "pipeline_inv s1" and p1: "preserved s s1" by auto
  from Cons.IH [OF i1 r] have "pipeline_inv s'" and "preserved s1 s'" by auto
  with p1 show ?case using preserved_trans by blast
qed

lemma example_run:
  "(case run run0 sys0 of
      None \<Rightarrow> False
    | Some s \<Rightarrow>
        (case run run1 s of
           None \<Rightarrow> False
         | Some s' \<Rightarrow>
             nextRef s = 3 \<and> nStatus (mem s 0) = StatusDelivered \<and>
             nAttempts (mem s 1) = 0 \<and> nAttempts (mem s' 1) = 2 \<and>
             nStatus (mem s' 0) = StatusDelivered))"
  by code_simp

lemma example_run_facts:
  "run run0 (init_system True clock0 5) = Some state0" "run run1 state0 = Some state1"
  "nextRef state0 = 3" "nStatus (mem state0 0) = StatusDelivered"
  "nAttempts (mem state0 1) = 0" "nAttempts (mem state1 1) = 2"
  "nStatus (mem state1 0) = StatusDelivered"
  using example_run unfolding state0_def state1_def sys0_def
  by (auto split: option.splits)

text \<open>
  C3. A notification is created with \<open>Attempts = 0\<close>. In every state the running system
  can reach, the attempts counter of every notification is at least 0; whatever happens
  afterwards (processing passes, retries, further posts), the counter does not decrease,
  and it never exceeds \<open>maxRetries + 1 = 4\<close>.
\<close>

theorem Attempts_monotone_bounded:
  assumes "run es (init_system loadSample clock wc) = Some s"
    and "run es' s = Some s'" and "r < nextRef s"
  shows "nAttempts (NewNotification userID post uuid now) = 0 \<and>
         0 \<le> nAttempts (mem s r) \<and> nAttempts (mem s r) \<le> nAttempts (mem s' r) \<and>
         nAttempts (mem s' r) \<le> maxRetries + 1 \<and> maxRetries + 1 = 4"
proof -
  from run_inv [OF pipeline_inv_init assms(1)] have i: "pipeline_inv s" by simp
  from run_inv [OF i assms(2)] have i': "pipeline_inv s'" and p: "preserved s s'" by auto
  from p assms(3) have r': "r < nextRef s'" and m: "nAttempts (mem s r) \<le> nAttempts (mem s' r)"
    unfolding preserved_def by auto
  from i assms(3) have a: "0 \<le> nAttempts (mem s r)" unfolding pipeline_inv_def by blast
  from i' r' have b: "nAttempts (mem s' r) \<le> maxRetries + 1" unfolding pipeline_inv_def by blast
  show ?thesis using a b m by (simp add: NewNotification_def maxRetries_def)
qed

theorem Attempts_monotone_bounded_witness:
  "run run0 (init_system True clock0 5) = Some state0 \<and> run run1 state0 = Some state1 \<and>
   1 < nextRef state0 \<and> nAttempts (mem state0 1) = 0 \<and> nAttempts (mem state1 1) = 2"
  using Attempts_monotone_bounded [OF example_run_facts(1) example_run_facts(2), of 1]
    example_run_facts
  by simp

text \<open>
  C4. Delivered and Failed are terminal: once a notification of a reachable state has the
  status Delivered or Failed, it has the same status after every further sequence of
  events of the pipeline (posts, worker passes with their store updates, retry
  re-enqueues).
\<close>

theorem terminal_status_stable:
  assumes "run es (init_system loadSample clock wc) = Some s"
    and "run es' s = Some s'" and "r < nextRef s"
    and "nStatus (mem s r) = StatusDelivered \<or> nStatus (mem s r) = StatusFailed"
  shows "nStatus (mem s' r) = nStatus (mem s r)"
proof -
  from run_inv [OF pipeline_inv_init assms(1)] have i: "pipeline_inv s" by simp
  from run_inv [OF i assms(2)] have p: "preserved s s'" by simp
  from p assms(3,4) show ?thesis unfolding preserved_def by auto
qed

theorem terminal_status_stable_witness:
  "run run0 (init_system True clock0 5) = Some state0 \<and> run run1 state0 = Some state1 \<and>
   0 < nextRef state0 \<and> nStatus (mem state0 0) = StatusDelivered \<and>
   nStatus (mem state1 0) = StatusDelivered"
  using terminal_status_stable [OF example_run_facts(1) example_run_facts(2), of 0]
    example_run_facts
  by simp

section \<open>The gRPC service: the creation time of a post\<close>

lemma PublishPost_loop_posts:
  "posts (mstore (fst (PublishPost_loop fs post fresh j (s, acc)))) = posts (mstore s)"
  using PublishPost_loop_props [of fs post fresh j s acc
          "fst (PublishPost_loop fs post fresh j (s, acc))"
          "snd (PublishPost_loop fs post fresh j (s, acc))"]
  by simp

lemma IsZero_Unix_zero: "\<not> IsZero (time_Unix 0 0)"
  by (simp add: IsZero_def time_Unix_zero)

text \<open>
  C1. The specification asks that a post whose \<^verbatim>\<open>created_at\<close> is zero be persisted with
  the current time, and the code tests \<^verbatim>\<open>post.CreatedAt.IsZero()\<close> for it. But
  \<^verbatim>\<open>time.Unix(0, 0)\<close> is January 1, 1970, not the zero time (January 1 of year 1), so
  the test fails: for every request whose \<^verbatim>\<open>created_at\<close> is zero the post is persisted
  with the creation time January 1, 1970, whatever the current time is.
\<close>

theorem PublishPost_zero_created_at:
  "map_option pCreatedAt
     (posts (mstore (snd (PublishPost (req\<lparr>req_created_at := 0\<rparr>) uuid now fresh s)))
        (if req_id req = '''' then uuid else req_id req)) = Some (time_Unix 0 0) \<and>
   time_Unix 0 0 = \<lparr>t_sec = 62135596800, t_nsec = 0\<rparr> \<and>
   \<not> IsZero (time_Unix 0 0)"
proof -
  have "map_option pCreatedAt
     (posts (mstore (snd (PublishPost (req\<lparr>req_created_at := 0\<rparr>) uuid now fresh s)))
        (if req_id req = '''' then uuid else req_id req)) = Some (time_Unix 0 0)"
    by (simp add: PublishPost_def Let_def SavePost_def split_def IsZero_Unix_zero
          PublishPost_loop_posts split: sum.splits)
  then show ?thesis using time_Unix_zero IsZero_Unix_zero by simp
qed

end
